theory Spec2Isabelle
  imports Main "HOL-Library.Sublist"
begin

section \<open>The video generation client of \<^verbatim>\<open>src/services/geminiService.ts\<close>\<close>

text \<open>
  The class \<^verbatim>\<open>GeminiVideoService\<close> has two members: the static accessor
  \<^verbatim>\<open>getInstance\<close> and the asynchronous method \<^verbatim>\<open>generateCinematicAnimation\<close>.
  The method talks to three collaborators that are not part of the repository (the
  generative-video SDK, \<^verbatim>\<open>fetch\<close> and \<^verbatim>\<open>URL.createObjectURL\<close>); they are
  parameters of the model, collected in the record \<open>env\<close>. Everything the method does
  to the outside is recorded, in program order, in a trace of events. An \<^verbatim>\<open>await\<close>
  suspends the single logical flow until the awaited call has answered, so the order of
  the trace is the order in time. The construction of the SDK client in the first line
  of the method and the caller's status callback are taken to return normally: neither
  is code of the repository's service, and the application's callback only stores the
  string.
\<close>

subsection \<open>Values\<close>

text \<open>
  A thrown value. The handler reads only its \<^verbatim>\<open>message\<close> property, through
  \<^verbatim>\<open>error.message?.includes(...)\<close>; a value without the property has message \<open>None\<close>.
  \<^verbatim>\<open>new Error(m)\<close> is \<open>JsError (Some m)\<close>.
\<close>

datatype js_error = JsError (message: "string option")

text \<open>
  The part of the SDK's operation object that the method reads:
  \<^verbatim>\<open>operation.done\<close> and \<^verbatim>\<open>operation.response?.generatedVideos?.[0]?.video?.uri\<close>.
  A property that is absent is \<open>None\<close>.
\<close>

datatype video = Video (uri: "string option")

datatype generated_video = GeneratedVideo (video: "video option")

datatype videos_response = VideosResponse (generatedVideos: "generated_video list option")

datatype operation = Operation (op_done: bool) (response: "videos_response option")

text \<open>The argument of \<^verbatim>\<open>ai.models.generateVideos\<close>.\<close>

record image =
  imageBytes :: string
  mimeType :: string

record video_config =
  numberOfVideos :: nat
  resolution :: string
  aspectRatio :: string

record request =
  model :: string
  prompt :: string
  image :: image
  config :: video_config

text \<open>
  The answer of \<^verbatim>\<open>fetch\<close>: the flag \<^verbatim>\<open>response.ok\<close> and what
  \<^verbatim>\<open>await response.blob()\<close> gives, which may itself reject.
\<close>

datatype http_response = HttpResponse (ok: bool) (blob: "js_error + string")

text \<open>
  The collaborators. \<open>getVideosOperation E k\<close> is the answer to the call number \<open>k\<close>
  (from 0) of \<^verbatim>\<open>ai.operations.getVideosOperation\<close>; the handle that the call sends is
  recorded in the trace. \<open>Inl\<close> is a rejected promise.
\<close>

record env =
  API_KEY :: "string option"
  generateVideos :: "request \<Rightarrow> js_error + operation"
  getVideosOperation :: "nat \<Rightarrow> js_error + operation"
  fetch :: "string \<Rightarrow> js_error + http_response"
  createObjectURL :: "string \<Rightarrow> string"

text \<open>
  What the method does to the outside: a call of \<^verbatim>\<open>onStatusUpdate\<close>, the submission,
  a \<^verbatim>\<open>setTimeout\<close> suspension with its delay in milliseconds, a poll with the handle it
  sends, a \<^verbatim>\<open>fetch\<close> with its URL, and the \<^verbatim>\<open>console.error\<close> of the handler.
\<close>

datatype event =
    StatusUpdate string
  | GenerateVideos request
  | Timeout nat
  | GetVideosOperation operation
  | Fetch string
  | ConsoleError js_error

text \<open>How the promise of the method settles.\<close>

datatype outcome = Resolved string | Rejected js_error

subsection \<open>Constants of the method\<close>

definition prompt_text :: string where
  "prompt_text = ''Cinematic realistic animation from this image. Long flowing white hair moving gently in cold mountain wind, smooth and natural flow. Wavy hair strands following the wind direction. Facial expression and features remain unchanged. Fine snow, light dust, and atmospheric particles floating dynamically with depth of field. Red ribbons and fabric fluttering softly. Static camera with very subtle slow push-in. Epic fantasy style, high detail, soft cold lighting, serene yet powerful atmosphere, smooth motion, no distortion.''"

definition submission :: "string \<Rightarrow> request" where
  "submission imageBase64 =
     \<lparr> model = ''veo-3.1-fast-generate-preview'',
       prompt = prompt_text,
       image = \<lparr> imageBytes = imageBase64, mimeType = ''image/png'' \<rparr>,
       config = \<lparr> numberOfVideos = 1, resolution = ''1080p'', aspectRatio = ''16:9'' \<rparr> \<rparr>"

definition loadingMessages :: "string list" where
  "loadingMessages =
     [''Simulating mountain wind patterns...'',
      ''Rendering atmospheric particle depth...'',
      ''Polishing hair strand animations...'',
      ''Applying cinematic lighting passes...'',
      ''Finalizing realistic motion vectors...'',
      ''Almost ready for your vision...'']"

definition msg_initializing :: string where
  "msg_initializing = ''Initializing video generation engine...''"

definition msg_crafting :: string where
  "msg_crafting = ''Crafting visual physics and hair dynamics...''"

definition msg_downloading :: string where
  "msg_downloading = ''Downloading final high-fidelity export...''"

subsection \<open>String operations\<close>

text \<open>
  \<^verbatim>\<open>String.prototype.includes\<close>: the needle occurs as a contiguous run of the
  haystack.
\<close>

fun starts_with :: "string \<Rightarrow> string \<Rightarrow> bool" where
  "starts_with s [] = True"
| "starts_with [] (c # cs) = False"
| "starts_with (x # xs) (c # cs) = (x = c \<and> starts_with xs cs)"

fun str_includes :: "string \<Rightarrow> string \<Rightarrow> bool" where
  "str_includes [] needle = (needle = [])"
| "str_includes (x # xs) needle = (starts_with (x # xs) needle \<or> str_includes xs needle)"

text \<open>
  A template literal turns \<^verbatim>\<open>undefined\<close> into the text \<^verbatim>\<open>undefined\<close>.
\<close>

definition interpolate :: "string option \<Rightarrow> string" where
  "interpolate v = (case v of None \<Rightarrow> ''undefined'' | Some s \<Rightarrow> s)"

subsection \<open>The poll loop\<close>

text \<open>
  \<^verbatim>\<open>while (!operation.done) { await timeout; onStatusUpdate(...); messageIndex++;
  operation = await getVideosOperation({operation}) }\<close>.
  The source's loop has no bound, so the model takes fuel: the number of iterations it
  may still run. With the fuel used up and the operation not done the loop is
  \<open>Pending\<close>, and the trace holds what has happened until then. \<open>calls\<close> counts
  the polls made so far and selects the collaborator's next answer.
\<close>

datatype loop_exit = Finished operation | Raised js_error | Pending

fun poll_loop ::
  "nat \<Rightarrow> env \<Rightarrow> operation \<Rightarrow> nat \<Rightarrow> nat \<Rightarrow> event list \<Rightarrow> loop_exit \<times> event list" where
  "poll_loop 0 E operation messageIndex calls tr =
     (if op_done operation then (Finished operation, tr) else (Pending, tr))"
| "poll_loop (Suc fuel) E operation messageIndex calls tr =
     (if op_done operation then (Finished operation, tr)
      else
        let tr1 = tr @ [Timeout 10000,
                        StatusUpdate (loadingMessages ! (messageIndex mod length loadingMessages)),
                        GetVideosOperation operation]
        in case getVideosOperation E calls of
             Inl error \<Rightarrow> (Raised error, tr1)
           | Inr operation' \<Rightarrow> poll_loop fuel E operation' (messageIndex + 1) (calls + 1) tr1)"

subsection \<open>After the loop\<close>

definition downloadLink :: "operation \<Rightarrow> string option" where
  "downloadLink operation =
     Option.bind (response operation) (\<lambda>r.
     Option.bind (generatedVideos r) (\<lambda>gs.
     Option.bind (case gs of [] \<Rightarrow> None | g # _ \<Rightarrow> Some g) (\<lambda>g.
     Option.bind (video g) uri)))"

text \<open>
  Lines 63 to 75: \<^verbatim>\<open>!downloadLink\<close> holds for an absent link and for the empty
  string. The result is the thrown value or the object URL.
\<close>

definition download :: "env \<Rightarrow> operation \<Rightarrow> event list \<Rightarrow> (js_error + string) \<times> event list" where
  "download E operation tr =
     (case downloadLink operation of
        None \<Rightarrow> (Inl (JsError (Some ''Failed to retrieve generated video URL.'')), tr)
      | Some link \<Rightarrow>
          if link = [] then (Inl (JsError (Some ''Failed to retrieve generated video URL.'')), tr)
          else
            let url = link @ ''&key='' @ interpolate (API_KEY E);
                tr1 = tr @ [StatusUpdate msg_downloading, Fetch url]
            in case fetch E url of
                 Inl error \<Rightarrow> (Inl error, tr1)
               | Inr resp \<Rightarrow>
                   if \<not> ok resp then (Inl (JsError (Some ''Failed to fetch the video data.'')), tr1)
                   else (case blob resp of
                           Inl error \<Rightarrow> (Inl error, tr1)
                         | Inr b \<Rightarrow> (Inr (createObjectURL E b), tr1)))"

text \<open>Lines 77 to 83, the handler of the \<^verbatim>\<open>try\<close> block.\<close>

definition credential_rejected :: "js_error \<Rightarrow> bool" where
  "credential_rejected error =
     (case message error of
        None \<Rightarrow> False
      | Some m \<Rightarrow> str_includes m ''Requested entity was not found'')"

definition catch_handler :: "js_error \<Rightarrow> event list \<Rightarrow> outcome option \<times> event list" where
  "catch_handler error tr =
     (let tr1 = tr @ [ConsoleError error]
      in if credential_rejected error then (Some (Rejected (JsError (Some ''API_KEY_RESET''))), tr1)
         else (Some (Rejected error), tr1))"

subsection \<open>The method\<close>

text \<open>
  The result is how the promise settles (\<open>None\<close> while the loop is pending) and the
  trace. \<open>after_loop\<close> is the rest of the \<^verbatim>\<open>try\<close> statement once the loop has been
  left: a value thrown by a poll goes to the handler, a finished operation to the
  download, whose thrown values go to the handler too. The first status update is
  outside the \<^verbatim>\<open>try\<close> block.
\<close>

definition after_loop :: "env \<Rightarrow> loop_exit \<times> event list \<Rightarrow> outcome option \<times> event list" where
  "after_loop E x =
     (case x of
        (Pending, tr) \<Rightarrow> (None, tr)
      | (Raised error, tr) \<Rightarrow> catch_handler error tr
      | (Finished operation, tr) \<Rightarrow>
          (case download E operation tr of
             (Inl error, tr') \<Rightarrow> catch_handler error tr'
           | (Inr url, tr') \<Rightarrow> (Some (Resolved url), tr')))"

definition generateCinematicAnimation ::
  "nat \<Rightarrow> env \<Rightarrow> string \<Rightarrow> outcome option \<times> event list" where
  "generateCinematicAnimation fuel E imageBase64 =
     (let tr0 = [StatusUpdate msg_initializing, GenerateVideos (submission imageBase64)]
      in case generateVideos E (submission imageBase64) of
           Inl error \<Rightarrow> catch_handler error tr0
         | Inr operation \<Rightarrow>
             after_loop E (poll_loop fuel E operation 0 0 (tr0 @ [StatusUpdate msg_crafting])))"

subsection \<open>The singleton accessor\<close>

text \<open>
  \<^verbatim>\<open>private static instance\<close> holds a reference or is undefined. An object is its
  reference; \<^verbatim>\<open>new GeminiVideoService()\<close> takes the next free one. The field is
  private and \<^verbatim>\<open>getInstance\<close> is the only code that writes it.
\<close>

record class_state =
  instance_ref :: "nat option"
  next_ref :: nat

definition getInstance :: "class_state \<Rightarrow> nat \<times> class_state" where
  "getInstance s =
     (case instance_ref s of
        None \<Rightarrow> (next_ref s, s\<lparr> instance_ref := Some (next_ref s), next_ref := Suc (next_ref s) \<rparr>)
      | Some r \<Rightarrow> (r, s))"

subsection \<open>Reading a trace\<close>

fun status_updates :: "event list \<Rightarrow> string list" where
  "status_updates [] = []"
| "status_updates (StatusUpdate m # tr) = m # status_updates tr"
| "status_updates (_ # tr) = status_updates tr"

fun timeouts :: "event list \<Rightarrow> nat list" where
  "timeouts [] = []"
| "timeouts (Timeout d # tr) = d # timeouts tr"
| "timeouts (_ # tr) = timeouts tr"

fun polled :: "event list \<Rightarrow> operation list" where
  "polled [] = []"
| "polled (GetVideosOperation h # tr) = h # polled tr"
| "polled (_ # tr) = polled tr"

fun fetches :: "event list \<Rightarrow> string list" where
  "fetches [] = []"
| "fetches (Fetch u # tr) = u # fetches tr"
| "fetches (_ # tr) = fetches tr"

fun network :: "event list \<Rightarrow> event list" where
  "network [] = []"
| "network (GenerateVideos r # tr) = GenerateVideos r # network tr"
| "network (GetVideosOperation h # tr) = GetVideosOperation h # network tr"
| "network (Fetch u # tr) = Fetch u # network tr"
| "network (_ # tr) = network tr"

subsection \<open>Describing a run\<close>

text \<open>
  The answers that the method observes, in order: number 0 is the answer to the
  submission, number \<open>k + 1\<close> the answer to poll \<open>k\<close>. An answer is in flight when it is a
  handle that is not done: the loop goes round once more exactly then.
\<close>

fun answer :: "env \<Rightarrow> string \<Rightarrow> nat \<Rightarrow> js_error + operation" where
  "answer E imageBase64 0 = generateVideos E (submission imageBase64)"
| "answer E imageBase64 (Suc k) = getVideosOperation E k"

definition in_flight :: "js_error + operation \<Rightarrow> bool" where
  "in_flight r = (case r of Inl error \<Rightarrow> False | Inr operation \<Rightarrow> \<not> op_done operation)"

text \<open>
  The same for a loop entered with the handle \<open>operation\<close> after \<open>calls\<close> polls.
\<close>

fun reply :: "env \<Rightarrow> operation \<Rightarrow> nat \<Rightarrow> nat \<Rightarrow> js_error + operation" where
  "reply E operation calls 0 = Inr operation"
| "reply E operation calls (Suc k) = getVideosOperation E (calls + k)"

text \<open>
  The events of consecutive iterations of the loop that send the handles \<open>hs\<close>, the first
  of them with message index \<open>i\<close>.
\<close>

fun rounds :: "nat \<Rightarrow> operation list \<Rightarrow> event list" where
  "rounds i [] = []"
| "rounds i (h # hs) =
     Timeout 10000 # StatusUpdate (loadingMessages ! (i mod length loadingMessages)) #
     GetVideosOperation h # rounds (Suc i) hs"

text \<open>The exit of the loop that an answer causes.\<close>

definition exit_on :: "js_error + operation \<Rightarrow> loop_exit" where
  "exit_on r =
     (case r of
        Inl error \<Rightarrow> Raised error
      | Inr operation \<Rightarrow> if op_done operation then Finished operation else Pending)"

subsection \<open>Concrete collaborators\<close>

text \<open>Handles: not done; done with one video; done with an empty result list.\<close>

definition op_pending :: operation where
  "op_pending = Operation False None"

definition op_ready :: operation where
  "op_ready =
     Operation True
       (Some (VideosResponse (Some [GeneratedVideo (Some (Video (Some ''https://x/video123'')))])))"

definition op_empty :: operation where
  "op_empty = Operation True (Some (VideosResponse (Some [])))"

text \<open>
  The submission answers a handle that is not done, every poll answers the finished
  handle, the download answers status 200 with a body.
\<close>

definition env_ready_after_one_poll :: env where
  "env_ready_after_one_poll =
     \<lparr> API_KEY = Some ''KEY'',
       generateVideos = (\<lambda>r. Inr op_pending),
       getVideosOperation = (\<lambda>k. Inr op_ready),
       fetch = (\<lambda>u. Inr (HttpResponse True (Inr ''MP4''))),
       createObjectURL = (\<lambda>b. ''blob:'' @ b) \<rparr>"

text \<open>The same, with the operation already done when the submission answers.\<close>

definition env_ready_at_submit :: env where
  "env_ready_at_submit = env_ready_after_one_poll \<lparr> generateVideos := (\<lambda>r. Inr op_ready) \<rparr>"

text \<open>The polls 0 to 5 answer not done, poll 6 answers done.\<close>

definition env_ready_after_seven_polls :: env where
  "env_ready_after_seven_polls =
     env_ready_after_one_poll
       \<lparr> getVideosOperation := (\<lambda>k. if k < 6 then Inr op_pending else Inr op_ready) \<rparr>"

text \<open>The submission is rejected with a message that has the shorter phrase only.\<close>

definition env_entity_missing :: env where
  "env_entity_missing =
     env_ready_after_one_poll
       \<lparr> generateVideos := (\<lambda>r. Inl (JsError (Some ''entity was not found''))) \<rparr>"

text \<open>The first poll is rejected with the phrase that the handler looks for.\<close>

definition env_key_rejected :: env where
  "env_key_rejected =
     env_ready_after_one_poll
       \<lparr> getVideosOperation := (\<lambda>k. Inl (JsError (Some ''404 Requested entity was not found.''))) \<rparr>"

text \<open>The submission is rejected for another reason.\<close>

definition env_quota :: env where
  "env_quota =
     env_ready_after_one_poll
       \<lparr> generateVideos := (\<lambda>r. Inl (JsError (Some ''Quota exceeded''))) \<rparr>"

text \<open>The operation is done at once and has no video.\<close>

definition env_no_video :: env where
  "env_no_video = env_ready_after_one_poll \<lparr> generateVideos := (\<lambda>r. Inr op_empty) \<rparr>"

text \<open>The download answers a status that is not a success.\<close>

definition env_forbidden :: env where
  "env_forbidden =
     env_ready_after_one_poll
       \<lparr> fetch := (\<lambda>u. Inr (HttpResponse False (Inr ''Forbidden''))) \<rparr>"

section \<open>Lemmas\<close>

subsection \<open>Traces\<close>

lemma status_updates_append: "status_updates (xs @ ys) = status_updates xs @ status_updates ys"
  by (induction xs rule: status_updates.induct) simp_all

lemma timeouts_append: "timeouts (xs @ ys) = timeouts xs @ timeouts ys"
  by (induction xs rule: timeouts.induct) simp_all

lemma polled_append: "polled (xs @ ys) = polled xs @ polled ys"
  by (induction xs rule: polled.induct) simp_all

lemma fetches_append: "fetches (xs @ ys) = fetches xs @ fetches ys"
  by (induction xs rule: fetches.induct) simp_all

lemma network_append: "network (xs @ ys) = network xs @ network ys"
  by (induction xs rule: network.induct) simp_all

lemma timeouts_rounds: "timeouts (rounds i hs) = replicate (length hs) 10000"
  by (induction hs arbitrary: i) simp_all

lemma polled_rounds: "polled (rounds i hs) = hs"
  by (induction hs arbitrary: i) simp_all

lemma fetches_rounds: "fetches (rounds i hs) = []"
  by (induction hs arbitrary: i) simp_all

lemma network_rounds: "network (rounds i hs) = map GetVideosOperation hs"
  by (induction hs arbitrary: i) simp_all

lemma status_updates_rounds:
  "status_updates (rounds i hs) =
     map (\<lambda>k. loadingMessages ! ((i + k) mod length loadingMessages)) [0..<length hs]"
proof (induction hs arbitrary: i)
  case Nil
  show ?case by simp
next
  case (Cons h hs)
  have "map (\<lambda>k. loadingMessages ! ((i + k) mod length loadingMessages)) [0..<Suc (length hs)] =
        loadingMessages ! (i mod length loadingMessages) #
        map (\<lambda>k. loadingMessages ! ((Suc i + k) mod length loadingMessages)) [0..<length hs]"
    by (simp add: upt_conv_Cons map_Suc_upt [symmetric] del: upt_Suc)
  with Cons.IH [of "Suc i"] show ?case by simp
qed

subsection \<open>The loop\<close>

lemma reply_shift:
  "getVideosOperation E n = Inr op' \<Longrightarrow> reply E op' (Suc n) k = reply E op n (Suc k)"
  by (cases k) simp_all

text \<open>
  Every run of the loop, whatever the fuel: it sends the handles \<open>hs\<close>, each of them the
  answer before it and not done, and leaves as the next answer says, or is pending
  with all the fuel used.
\<close>

lemma poll_loop_run:
  "\<exists>hs. length hs \<le> fuel \<and>
        (\<forall>k<length hs. reply E op n k = Inr (hs ! k) \<and> \<not> op_done (hs ! k)) \<and>
        (in_flight (reply E op n (length hs)) \<longrightarrow> length hs = fuel) \<and>
        poll_loop fuel E op i n tr = (exit_on (reply E op n (length hs)), tr @ rounds i hs)"
proof (induction fuel arbitrary: op i n tr)
  case 0
  show ?case
    by (rule exI [of _ "[]"]) (simp add: exit_on_def in_flight_def)
next
  case (Suc fuel)
  show ?case
  proof (cases "op_done op")
    case True
    then show ?thesis
      by (intro exI [of _ "[]"]) (simp add: exit_on_def in_flight_def)
  next
    case False
    show ?thesis
    proof (cases "getVideosOperation E n")
      case (Inl e)
      with False show ?thesis
        by (intro exI [of _ "[op]"]) (simp add: exit_on_def in_flight_def)
    next
      case (Inr op')
      let ?tr1 = "tr @ [Timeout 10000,
                        StatusUpdate (loadingMessages ! (i mod length loadingMessages)),
                        GetVideosOperation op]"
      from Suc.IH [of op' "Suc n" "Suc i" ?tr1] obtain hs where
        len: "length hs \<le> fuel" and
        seen: "\<forall>k<length hs. reply E op' (Suc n) k = Inr (hs ! k) \<and> \<not> op_done (hs ! k)" and
        full: "in_flight (reply E op' (Suc n) (length hs)) \<longrightarrow> length hs = fuel" and
        run: "poll_loop fuel E op' (Suc i) (Suc n) ?tr1 =
                (exit_on (reply E op' (Suc n) (length hs)), ?tr1 @ rounds (Suc i) hs)"
        by blast
      have shift: "\<And>k. reply E op' (Suc n) k = reply E op n (Suc k)"
        using Inr by (rule reply_shift)
      have seen': "\<forall>k<length (op # hs). reply E op n k = Inr ((op # hs) ! k) \<and> \<not> op_done ((op # hs) ! k)"
      proof (intro allI impI)
        fix k assume k: "k < length (op # hs)"
        show "reply E op n k = Inr ((op # hs) ! k) \<and> \<not> op_done ((op # hs) ! k)"
        proof (cases k)
          case 0
          with False show ?thesis by simp
        next
          case (Suc j)
          with k seen shift show ?thesis by simp
        qed
      qed
      have run': "poll_loop (Suc fuel) E op i n tr =
                    (exit_on (reply E op n (length (op # hs))), tr @ rounds i (op # hs))"
        using False Inr run shift by simp
      have full': "in_flight (reply E op n (length (op # hs))) \<longrightarrow> length (op # hs) = Suc fuel"
        using full shift by simp
      from len seen' full' run' show ?thesis
        by (intro exI [of _ "op # hs"]) simp
    qed
  qed
qed

subsection \<open>The whole run\<close>

lemma answer_reply:
  "generateVideos E (submission img) = Inr op0 \<Longrightarrow> answer E img k = reply E op0 0 k"
  by (cases k) simp_all

lemma run_after_submit:
  assumes "generateVideos E (submission img) = Inr op0"
  shows "\<exists>hs. length hs \<le> fuel \<and>
           (\<forall>k<length hs. answer E img k = Inr (hs ! k) \<and> \<not> op_done (hs ! k)) \<and>
           (in_flight (answer E img (length hs)) \<longrightarrow> length hs = fuel) \<and>
           generateCinematicAnimation fuel E img =
             after_loop E (exit_on (answer E img (length hs)),
               [StatusUpdate msg_initializing, GenerateVideos (submission img),
                StatusUpdate msg_crafting] @ rounds 0 hs)"
proof -
  let ?tr = "[StatusUpdate msg_initializing, GenerateVideos (submission img),
              StatusUpdate msg_crafting]"
  from poll_loop_run [of fuel E op0 0 0 ?tr] obtain hs where
    "length hs \<le> fuel" and
    "\<forall>k<length hs. reply E op0 0 k = Inr (hs ! k) \<and> \<not> op_done (hs ! k)" and
    "in_flight (reply E op0 0 (length hs)) \<longrightarrow> length hs = fuel" and
    "poll_loop fuel E op0 0 0 ?tr = (exit_on (reply E op0 0 (length hs)), ?tr @ rounds 0 hs)"
    by blast
  then show ?thesis
    using assms
    by (intro exI [of _ hs]) (simp add: generateCinematicAnimation_def answer_reply [OF assms])
qed

lemma first_settled:
  assumes "\<forall>k<N. in_flight (answer E img k)" and "\<not> in_flight (answer E img N)"
    and "N \<le> fuel" and "length hs \<le> fuel"
    and "\<forall>k<length hs. answer E img k = Inr (hs ! k) \<and> \<not> op_done (hs ! k)"
    and "in_flight (answer E img (length hs)) \<longrightarrow> length hs = fuel"
  shows "length hs = N"
proof (rule ccontr)
  assume "length hs \<noteq> N"
  then consider "length hs < N" | "N < length hs" by linarith
  then show False
  proof cases
    case 1
    with assms(1) have "in_flight (answer E img (length hs))" by simp
    with assms(6) have "length hs = fuel" by simp
    with 1 assms(3) show False by simp
  next
    case 2
    with assms(5) have "in_flight (answer E img N)" by (simp add: in_flight_def)
    with assms(2) show False by simp
  qed
qed

lemma handles_are_answers:
  assumes "\<forall>k<length hs. answer E img k = Inr (hs ! k) \<and> \<not> op_done (hs ! k)"
  shows "map Inr hs = map (answer E img) [0..<length hs]"
  using assms by (intro nth_equalityI) simp_all

text \<open>The run when the answer number \<open>N\<close> is the first that is not in flight.\<close>

lemma run_settled:
  assumes "generateVideos E (submission img) = Inr op0"
    and "\<forall>k<N. in_flight (answer E img k)" and "\<not> in_flight (answer E img N)" and "N \<le> fuel"
  shows "\<exists>hs. length hs = N \<and> map Inr hs = map (answer E img) [0..<N] \<and>
           generateCinematicAnimation fuel E img =
             after_loop E (exit_on (answer E img N),
               [StatusUpdate msg_initializing, GenerateVideos (submission img),
                StatusUpdate msg_crafting] @ rounds 0 hs)"
proof -
  from run_after_submit [OF assms(1), of fuel] obtain hs where
    len: "length hs \<le> fuel" and
    seen: "\<forall>k<length hs. answer E img k = Inr (hs ! k) \<and> \<not> op_done (hs ! k)" and
    full: "in_flight (answer E img (length hs)) \<longrightarrow> length hs = fuel" and
    run: "generateCinematicAnimation fuel E img =
             after_loop E (exit_on (answer E img (length hs)),
               [StatusUpdate msg_initializing, GenerateVideos (submission img),
                StatusUpdate msg_crafting] @ rounds 0 hs)"
    by blast
  have N: "length hs = N"
    using assms(2-4) len seen full by (rule first_settled)
  with handles_are_answers [OF seen] run show ?thesis
    by (intro exI [of _ hs]) simp
qed

lemma run_finished:
  assumes "\<forall>k<N. in_flight (answer E img k)" and "answer E img N = Inr operation"
    and "op_done operation" and "N \<le> fuel"
  shows "\<exists>hs. length hs = N \<and> map Inr hs = map (answer E img) [0..<N] \<and>
           generateCinematicAnimation fuel E img =
             after_loop E (Finished operation,
               [StatusUpdate msg_initializing, GenerateVideos (submission img),
                StatusUpdate msg_crafting] @ rounds 0 hs)"
proof -
  have settled: "\<not> in_flight (answer E img N)"
    using assms(2,3) by (simp add: in_flight_def)
  obtain op0 where "generateVideos E (submission img) = Inr op0"
  proof (cases N)
    case 0
    with assms(2) that show ?thesis by simp
  next
    case (Suc j)
    with assms(1) have "in_flight (answer E img 0)" by blast
    with that show ?thesis by (auto simp: in_flight_def split: sum.splits)
  qed
  from run_settled [OF this assms(1) settled assms(4)] assms(2,3) show ?thesis
    by (simp add: exit_on_def)
qed

lemma run_rejected:
  assumes "\<forall>k<N. in_flight (answer E img k)" and "answer E img N = Inl error" and "N \<le> fuel"
  shows "\<exists>tr. generateCinematicAnimation fuel E img = catch_handler error tr"
proof (cases N)
  case 0
  with assms(2) show ?thesis
    by (auto simp: generateCinematicAnimation_def)
next
  case (Suc j)
  with assms(1) have "in_flight (answer E img 0)" by blast
  then obtain op0 where op0: "generateVideos E (submission img) = Inr op0"
    by (auto simp: in_flight_def split: sum.splits)
  have settled: "\<not> in_flight (answer E img N)"
    using assms(2) by (simp add: in_flight_def)
  from run_settled [OF op0 assms(1) settled assms(3)] assms(2) show ?thesis
    by (auto simp: exit_on_def after_loop_def)
qed

subsection \<open>Strings\<close>

lemma starts_with_prefix: "starts_with s p \<longleftrightarrow> prefix p s"
  by (induction s p rule: starts_with.induct) auto

lemma str_includes_sublist: "str_includes haystack needle \<longleftrightarrow> sublist needle haystack"
  by (induction haystack) (simp_all add: sublist_Cons_right starts_with_prefix del: starts_with.simps)


lemma str_includes_longer:
  "str_includes m (p @ needle) \<Longrightarrow> str_includes m needle"
proof -
  assume "str_includes m (p @ needle)"
  then have "sublist (p @ needle) m" by (simp add: str_includes_sublist)
  then obtain a b where "m = a @ (p @ needle) @ b" by (auto simp: sublist_def)
  then have "m = (a @ p) @ needle @ b" by simp
  then have "sublist needle m" unfolding sublist_def by blast
  then show ?thesis by (simp add: str_includes_sublist)
qed

lemma length_loadingMessages: "length loadingMessages = 6"
  by (simp add: loadingMessages_def)


text \<open>
  A message without the phrase \<open>entity was not found\<close> is without the longer phrase
  that the handler looks for.
\<close>

lemma short_phrase_absent:
  assumes "message error = Some m" and "\<not> str_includes m ''entity was not found''"
  shows "\<not> credential_rejected error"
proof -
  have "str_includes m (''Requested '' @ ''entity was not found'') \<Longrightarrow>
        str_includes m ''entity was not found''"
    by (rule str_includes_longer)
  with assms(2) have "\<not> str_includes m ''Requested entity was not found''"
    by auto
  with assms(1) show ?thesis by (simp add: credential_rejected_def)
qed

lemma no_message_not_rejected: "message error = None \<Longrightarrow> \<not> credential_rejected error"
  by (simp add: credential_rejected_def)

subsection \<open>Handler and download\<close>

lemma own_errors_not_rejected:
  "\<not> credential_rejected (JsError (Some ''Failed to retrieve generated video URL.''))"
  "\<not> credential_rejected (JsError (Some ''Failed to fetch the video data.''))"
  by (simp_all add: credential_rejected_def)

lemma fst_catch_handler:
  "fst (catch_handler error tr) =
     Some (Rejected (if credential_rejected error then JsError (Some ''API_KEY_RESET'') else error))"
  by (simp add: catch_handler_def)

lemma snd_catch_handler: "snd (catch_handler error tr) = tr @ [ConsoleError error]"
  by (simp add: catch_handler_def Let_def)

lemma download_missing_link:
  "downloadLink operation = None \<or> downloadLink operation = Some [] \<Longrightarrow>
   download E operation tr = (Inl (JsError (Some ''Failed to retrieve generated video URL.'')), tr)"
  by (auto simp: download_def)

lemma downloadLink_empty_list:
  "response operation = Some r \<Longrightarrow> generatedVideos r = Some [] \<Longrightarrow> downloadLink operation = None"
  by (simp add: downloadLink_def)

lemma downloadLink_first_item:
  "response operation = Some r \<Longrightarrow> generatedVideos r = Some (g # gs) \<Longrightarrow>
   downloadLink operation = Option.bind (video g) uri"
  by (simp add: downloadLink_def)

lemma download_with_link:
  "downloadLink operation = Some link \<Longrightarrow> link \<noteq> [] \<Longrightarrow>
   \<exists>r. download E operation tr =
     (r, tr @ [StatusUpdate msg_downloading, Fetch (link @ ''&key='' @ interpolate (API_KEY E))])"
  by (simp add: download_def Let_def split: sum.splits)

lemma download_not_ok:
  "downloadLink operation = Some link \<Longrightarrow> link \<noteq> [] \<Longrightarrow>
   fetch E (link @ ''&key='' @ interpolate (API_KEY E)) = Inr resp \<Longrightarrow> \<not> ok resp \<Longrightarrow>
   download E operation tr =
     (Inl (JsError (Some ''Failed to fetch the video data.'')),
      tr @ [StatusUpdate msg_downloading, Fetch (link @ ''&key='' @ interpolate (API_KEY E))])"
  by (simp add: download_def Let_def)

lemma download_ok:
  "downloadLink operation = Some link \<Longrightarrow> link \<noteq> [] \<Longrightarrow>
   fetch E (link @ ''&key='' @ interpolate (API_KEY E)) = Inr resp \<Longrightarrow> ok resp \<Longrightarrow>
   blob resp = Inr body \<Longrightarrow>
   download E operation tr =
     (Inr (createObjectURL E body),
      tr @ [StatusUpdate msg_downloading, Fetch (link @ ''&key='' @ interpolate (API_KEY E))])"
  by (simp add: download_def Let_def)

lemma poll_loop_done:
  "op_done operation \<Longrightarrow> poll_loop fuel E operation i n tr = (Finished operation, tr)"
  by (cases fuel) simp_all

text \<open>
  What is left of the method after the loop adds to the trace: no wait, no poll, at most
  one fetch, and a fetch only for a finished operation; a promise that resolves has
  had its fetch and its last status update.
\<close>

lemma after_loop_tail:
  "\<exists>tail. snd (after_loop E (x, tr)) = tr @ tail \<and>
          network tail = map Fetch (fetches tail) \<and>
          timeouts tail = [] \<and> polled tail = [] \<and>
          length (fetches tail) \<le> 1 \<and>
          (fetches tail \<noteq> [] \<longrightarrow> (\<exists>operation. x = Finished operation)) \<and>
          (\<forall>u. fst (after_loop E (x, tr)) = Some (Resolved u) \<longrightarrow>
             fetches tail \<noteq> [] \<and> status_updates tail = [msg_downloading])"
proof (cases x)
  case Pending
  then show ?thesis by (simp add: after_loop_def)
next
  case (Raised error)
  then show ?thesis
    by (intro exI [of _ "[ConsoleError error]"])
       (simp add: after_loop_def fst_catch_handler snd_catch_handler)
next
  case (Finished operation)
  show ?thesis
  proof (cases "downloadLink operation = None \<or> downloadLink operation = Some []")
    case True
    from download_missing_link [OF this, of E tr] Finished show ?thesis
      by (intro exI [of _ "[ConsoleError (JsError (Some ''Failed to retrieve generated video URL.''))]"])
         (simp add: after_loop_def fst_catch_handler snd_catch_handler)
  next
    case False
    then obtain link where link: "downloadLink operation = Some link" "link \<noteq> []"
      by auto
    let ?ev = "[StatusUpdate msg_downloading, Fetch (link @ ''&key='' @ interpolate (API_KEY E))]"
    from download_with_link [OF link, of E tr] obtain r where
      r: "download E operation tr = (r, tr @ ?ev)" ..
    show ?thesis
    proof (cases r)
      case (Inl error)
      with r Finished show ?thesis
        by (intro exI [of _ "?ev @ [ConsoleError error]"])
           (simp add: after_loop_def fst_catch_handler snd_catch_handler)
    next
      case (Inr url)
      with r Finished show ?thesis
        by (intro exI [of _ ?ev]) (simp add: after_loop_def)
    qed
  qed
qed

text \<open>
  Waits, polls and status updates of a run whose answer number \<open>M\<close> is the first that
  is not in flight and is a finished handle.
\<close>

lemma run_settled_done:
  assumes "\<forall>k<M. in_flight (answer E img k)"
    and "answer E img M = Inr operation" and "op_done operation" and "M \<le> fuel"
  shows "timeouts (snd (generateCinematicAnimation fuel E img)) = replicate M 10000 \<and>
         length (polled (snd (generateCinematicAnimation fuel E img))) = M \<and>
         (\<exists>rest. status_updates (snd (generateCinematicAnimation fuel E img)) =
            msg_initializing # msg_crafting #
            map (\<lambda>k. loadingMessages ! (k mod 6)) [0..<M] @ rest)"
proof -
  let ?pre = "[StatusUpdate msg_initializing, GenerateVideos (submission img),
               StatusUpdate msg_crafting]"
  from run_finished [OF assms] obtain hs where
    len: "length hs = M" and
    run: "generateCinematicAnimation fuel E img =
            after_loop E (Finished operation, ?pre @ rounds 0 hs)"
    by blast
  from after_loop_tail [of E "Finished operation" "?pre @ rounds 0 hs"] obtain tail where
    tr: "snd (after_loop E (Finished operation, ?pre @ rounds 0 hs)) = (?pre @ rounds 0 hs) @ tail"
    and no_wait: "timeouts tail = []" and no_poll: "polled tail = []"
    by blast
  have full: "snd (generateCinematicAnimation fuel E img) = ?pre @ rounds 0 hs @ tail"
    using tr by (simp add: run)
  have t: "timeouts (snd (generateCinematicAnimation fuel E img)) = replicate M 10000"
    by (simp add: full timeouts_append timeouts_rounds len no_wait)
  have p: "length (polled (snd (generateCinematicAnimation fuel E img))) = M"
    by (simp add: full polled_append polled_rounds len no_poll)
  have s: "status_updates (snd (generateCinematicAnimation fuel E img)) =
             msg_initializing # msg_crafting #
             map (\<lambda>k. loadingMessages ! (k mod 6)) [0..<M] @ status_updates tail"
    by (simp add: full status_updates_append status_updates_rounds len length_loadingMessages)
  from t p s show ?thesis by blast
qed

text \<open>Every run starts with the first status update and the submission.\<close>

lemma submission_events:
  "\<exists>rest. snd (generateCinematicAnimation fuel E img) =
     StatusUpdate msg_initializing # GenerateVideos (submission img) # rest"
proof (cases "generateVideos E (submission img)")
  case (Inl error)
  then show ?thesis
    by (simp add: generateCinematicAnimation_def snd_catch_handler)
next
  case (Inr op0)
  from run_after_submit [OF this, of fuel] obtain hs where
    run: "generateCinematicAnimation fuel E img =
            after_loop E (exit_on (answer E img (length hs)),
              [StatusUpdate msg_initializing, GenerateVideos (submission img),
               StatusUpdate msg_crafting] @ rounds 0 hs)"
    by blast
  from after_loop_tail obtain tail where
    "snd (after_loop E (exit_on (answer E img (length hs)),
       [StatusUpdate msg_initializing, GenerateVideos (submission img),
        StatusUpdate msg_crafting] @ rounds 0 hs)) =
     ([StatusUpdate msg_initializing, GenerateVideos (submission img),
       StatusUpdate msg_crafting] @ rounds 0 hs) @ tail"
    by blast
  then show ?thesis by (simp add: run)
qed

lemma exit_on_Finished:
  "exit_on r = Finished operation \<Longrightarrow> r = Inr operation \<and> op_done operation"
  by (auto simp: exit_on_def split: sum.splits if_splits)

text \<open>The iterations written out: a wait, then the cyclic message, then the poll.\<close>

lemma rounds_concat:
  "rounds i hs =
     concat (map (\<lambda>k. [Timeout 10000,
                        StatusUpdate (loadingMessages ! ((i + k) mod 6)),
                        GetVideosOperation (hs ! k)]) [0..<length hs])"
proof (induction hs arbitrary: i)
  case Nil
  show ?case by simp
next
  case (Cons h hs)
  have "concat (map (\<lambda>k. [Timeout 10000,
                           StatusUpdate (loadingMessages ! ((i + k) mod 6)),
                           GetVideosOperation ((h # hs) ! k)]) [0..<Suc (length hs)]) =
        [Timeout 10000, StatusUpdate (loadingMessages ! (i mod 6)), GetVideosOperation h] @
        concat (map (\<lambda>k. [Timeout 10000,
                           StatusUpdate (loadingMessages ! ((Suc i + k) mod 6)),
                           GetVideosOperation (hs ! k)]) [0..<length hs])"
    by (simp add: upt_conv_Cons map_Suc_upt [symmetric] comp_def del: upt_Suc)
  with Cons.IH [of "Suc i"] show ?case
    by (simp add: length_loadingMessages)
qed

text \<open>
  A promise resolves only after a finished operation with a link, and then the last two
  events are the downloading message and the fetch.
\<close>

lemma after_loop_resolved:
  assumes "fst (after_loop E (x, tr)) = Some (Resolved u)"
  shows "\<exists>operation link. x = Finished operation \<and> downloadLink operation = Some link \<and>
           link \<noteq> [] \<and>
           snd (after_loop E (x, tr)) =
             tr @ [StatusUpdate msg_downloading,
                   Fetch (link @ ''&key='' @ interpolate (API_KEY E))]"
proof (cases x)
  case Pending
  with assms show ?thesis by (simp add: after_loop_def)
next
  case (Raised error)
  with assms show ?thesis by (simp add: after_loop_def fst_catch_handler)
next
  case (Finished operation)
  show ?thesis
  proof (cases "downloadLink operation = None \<or> downloadLink operation = Some []")
    case True
    from download_missing_link [OF this, of E tr] Finished assms show ?thesis
      by (simp add: after_loop_def fst_catch_handler)
  next
    case False
    then obtain link where link: "downloadLink operation = Some link" "link \<noteq> []"
      by auto
    from download_with_link [OF link, of E tr] obtain r where
      r: "download E operation tr =
            (r, tr @ [StatusUpdate msg_downloading,
                      Fetch (link @ ''&key='' @ interpolate (API_KEY E))])" ..
    show ?thesis
    proof (cases r)
      case (Inl error)
      with r Finished assms show ?thesis
        by (simp add: after_loop_def fst_catch_handler)
    next
      case (Inr url)
      with r Finished link show ?thesis
        by (simp add: after_loop_def)
    qed
  qed
qed

text \<open>
  The whole trace of a run whose answer number \<open>M\<close> is the first that is not in flight
  and is a finished handle.
\<close>

lemma run_done_trace:
  assumes "\<forall>k<M. in_flight (answer E img k)"
    and "answer E img M = Inr operation" and "op_done operation" and "M \<le> fuel"
  shows "\<exists>hs tail. length hs = M \<and> (\<forall>k<M. answer E img k = Inr (hs ! k)) \<and>
           snd (generateCinematicAnimation fuel E img) =
             [StatusUpdate msg_initializing, GenerateVideos (submission img),
              StatusUpdate msg_crafting] @
             concat (map (\<lambda>k. [Timeout 10000,
                                StatusUpdate (loadingMessages ! (k mod 6)),
                                GetVideosOperation (hs ! k)]) [0..<M]) @ tail \<and>
           timeouts tail = [] \<and> polled tail = [] \<and>
           (\<forall>u. fst (generateCinematicAnimation fuel E img) = Some (Resolved u) \<longrightarrow>
              (\<exists>link. downloadLink operation = Some link \<and>
                 tail = [StatusUpdate msg_downloading,
                         Fetch (link @ ''&key='' @ interpolate (API_KEY E))]))"
proof -
  let ?pre = "[StatusUpdate msg_initializing, GenerateVideos (submission img),
               StatusUpdate msg_crafting]"
  from run_finished [OF assms] obtain hs where
    len: "length hs = M" and
    ans: "map Inr hs = map (answer E img) [0..<M]" and
    run: "generateCinematicAnimation fuel E img =
            after_loop E (Finished operation, ?pre @ rounds 0 hs)"
    by blast
  from after_loop_tail [of E "Finished operation" "?pre @ rounds 0 hs"] obtain tail where
    tr: "snd (after_loop E (Finished operation, ?pre @ rounds 0 hs)) = (?pre @ rounds 0 hs) @ tail"
    and no_wait: "timeouts tail = []" and no_poll: "polled tail = []"
    by blast
  have handles: "\<forall>k<M. answer E img k = Inr (hs ! k)"
  proof (intro allI impI)
    fix k assume k: "k < M"
    with len have "map Inr hs ! k = (Inr (hs ! k) :: js_error + operation)" by simp
    moreover from k have "map (answer E img) [0..<M] ! k = answer E img k" by simp
    ultimately show "answer E img k = Inr (hs ! k)" using ans by simp
  qed
  have shape: "snd (generateCinematicAnimation fuel E img) =
                 ?pre @
                 concat (map (\<lambda>k. [Timeout 10000,
                                    StatusUpdate (loadingMessages ! (k mod 6)),
                                    GetVideosOperation (hs ! k)]) [0..<M]) @ tail"
    using tr rounds_concat [of 0 hs] by (simp add: run len)
  have last: "\<exists>link. downloadLink operation = Some link \<and>
                 tail = [StatusUpdate msg_downloading,
                         Fetch (link @ ''&key='' @ interpolate (API_KEY E))]"
    if "fst (generateCinematicAnimation fuel E img) = Some (Resolved u)" for u
  proof -
    from that have "fst (after_loop E (Finished operation, ?pre @ rounds 0 hs)) = Some (Resolved u)"
      by (simp add: run)
    from after_loop_resolved [OF this] obtain link where
      "downloadLink operation = Some link" and
      "snd (after_loop E (Finished operation, ?pre @ rounds 0 hs)) =
         (?pre @ rounds 0 hs) @ [StatusUpdate msg_downloading,
               Fetch (link @ ''&key='' @ interpolate (API_KEY E))]"
      by auto
    with tr show ?thesis by simp
  qed
  from len handles shape no_wait no_poll last show ?thesis
    by (intro exI [of _ hs] exI [of _ tail]) blast
qed

section \<open>Claims\<close>

text \<open>
  In the theorems below a run is described by the answers that the method observes:
  \<open>\<forall>k<N. in_flight (answer E img k)\<close> says that the first \<open>N\<close> of them (the
  submission's, then those of the polls \<open>0\<close> to \<open>N - 2\<close>) are handles that are not done,
  and \<open>N \<le> fuel\<close> that the model is given the iterations this run needs.
\<close>

text \<open>
  C1. The claim: every error raised by the submission or a poll whose message contains
  \<open>entity was not found\<close> anywhere is surfaced as the \<open>API_KEY_RESET\<close> error. The
  handler looks for the longer phrase \<open>Requested entity was not found\<close>, so a message
  that has the shorter phrase only is thrown again as it is: here the submission is
  rejected with exactly the shorter phrase.
\<close>

theorem credential_phrase_counterexample:
  "str_includes ''entity was not found'' ''entity was not found'' \<and>
   answer env_entity_missing ''PNG'' 0 = Inl (JsError (Some ''entity was not found'')) \<and>
   fst (generateCinematicAnimation 0 env_entity_missing ''PNG'') =
     Some (Rejected (JsError (Some ''entity was not found''))) \<and>
   fst (generateCinematicAnimation 0 env_entity_missing ''PNG'') \<noteq>
     Some (Rejected (JsError (Some ''API_KEY_RESET'')))"
  by (simp add: env_entity_missing_def env_ready_after_one_poll_def
      generateCinematicAnimation_def catch_handler_def credential_rejected_def)

text \<open>
  C1, as the code has it: an error raised by the submission (\<open>N = 0\<close>) or by a poll
  whose message contains \<open>Requested entity was not found\<close> anywhere is surfaced as a
  new error with the message \<open>API_KEY_RESET\<close>, whatever else the message holds.
\<close>

theorem credential_rejection_remapped:
  assumes "\<forall>k<N. in_flight (answer E img k)"
    and "answer E img N = Inl error"
    and "message error = Some m"
    and "str_includes m ''Requested entity was not found''"
    and "N \<le> fuel"
  shows "fst (generateCinematicAnimation fuel E img) =
           Some (Rejected (JsError (Some ''API_KEY_RESET'')))"
proof -
  from run_rejected [OF assms(1,2,5)] obtain tr where
    "generateCinematicAnimation fuel E img = catch_handler error tr" ..
  moreover have "credential_rejected error"
    using assms(3,4) by (simp add: credential_rejected_def)
  ultimately show ?thesis by (simp add: fst_catch_handler)
qed

theorem credential_rejection_remapped_witness:
  "in_flight (answer env_key_rejected ''PNG'' 0) \<and>
   answer env_key_rejected ''PNG'' 1 = Inl (JsError (Some ''404 Requested entity was not found.'')) \<and>
   str_includes ''404 Requested entity was not found.'' ''Requested entity was not found'' \<and>
   fst (generateCinematicAnimation 1 env_key_rejected ''PNG'') =
     Some (Rejected (JsError (Some ''API_KEY_RESET'')))"
  using credential_rejection_remapped [of 1 env_key_rejected "''PNG''"
      "JsError (Some ''404 Requested entity was not found.'')"
      "''404 Requested entity was not found.''" 1]
  by (simp add: env_key_rejected_def env_ready_after_one_poll_def in_flight_def op_pending_def)

text \<open>
  C2. The claim: when the submission answers a handle that is not done, one poll
  answers done with a result URI and the download succeeds, the method returns the
  object URL of the downloaded body and the status callback receives exactly three
  strings. The method returns that URL, but the callback receives four strings: the
  second one, emitted right after the submission has answered, is missing from the
  claim.
\<close>

theorem progress_sequence_counterexample:
  "generateVideos env_ready_after_one_poll (submission ''PNG'') = Inr (Operation False None) \<and>
   getVideosOperation env_ready_after_one_poll 0 = Inr op_ready \<and>
   op_done op_ready \<and> downloadLink op_ready = Some ''https://x/video123'' \<and>
   fst (generateCinematicAnimation 1 env_ready_after_one_poll ''PNG'') = Some (Resolved ''blob:MP4'') \<and>
   status_updates (snd (generateCinematicAnimation 1 env_ready_after_one_poll ''PNG'')) =
     [''Initializing video generation engine...'',
      ''Crafting visual physics and hair dynamics...'',
      ''Simulating mountain wind patterns...'',
      ''Downloading final high-fidelity export...''] \<and>
   length (status_updates (snd (generateCinematicAnimation 1 env_ready_after_one_poll ''PNG''))) \<noteq> 3"
  by (simp add: env_ready_after_one_poll_def op_pending_def op_ready_def
      generateCinematicAnimation_def after_loop_def download_def downloadLink_def
      interpolate_def loadingMessages_def msg_initializing_def msg_crafting_def
      msg_downloading_def)

text \<open>
  C2, as the code has it: in such a run the promise resolves with
  \<open>createObjectURL\<close> of the downloaded body, and the status callback receives exactly
  four strings: the initializing message, the crafting message, the first of the
  cyclic messages, the downloading message.
\<close>

theorem one_poll_success:
  assumes "generateVideos E (submission img) = Inr op0" and "\<not> op_done op0"
    and "getVideosOperation E 0 = Inr op1" and "op_done op1"
    and "downloadLink op1 = Some link" and "link \<noteq> []"
    and "fetch E (link @ ''&key='' @ interpolate (API_KEY E)) = Inr resp"
    and "ok resp" and "blob resp = Inr body"
    and "1 \<le> fuel"
  shows "fst (generateCinematicAnimation fuel E img) = Some (Resolved (createObjectURL E body)) \<and>
         status_updates (snd (generateCinematicAnimation fuel E img)) =
           [''Initializing video generation engine...'',
            ''Crafting visual physics and hair dynamics...'',
            loadingMessages ! 0,
            ''Downloading final high-fidelity export...''] \<and>
         loadingMessages ! 0 = ''Simulating mountain wind patterns...''"
proof -
  from assms(10) obtain f where f: "fuel = Suc f" by (cases fuel) simp_all
  let ?tr = "[StatusUpdate msg_initializing, GenerateVideos (submission img),
              StatusUpdate msg_crafting, Timeout 10000,
              StatusUpdate (loadingMessages ! (0 mod length loadingMessages)),
              GetVideosOperation op0]"
  have loop: "poll_loop fuel E op0 0 0
                [StatusUpdate msg_initializing, GenerateVideos (submission img),
                 StatusUpdate msg_crafting] = (Finished op1, ?tr)"
    using assms(2-4) by (simp add: f poll_loop_done)
  have run: "generateCinematicAnimation fuel E img =
               (Some (Resolved (createObjectURL E body)),
                ?tr @ [StatusUpdate msg_downloading,
                       Fetch (link @ ''&key='' @ interpolate (API_KEY E))])"
    using assms(1) loop download_ok [OF assms(5-9), of ?tr]
    by (simp add: generateCinematicAnimation_def after_loop_def)
  show ?thesis
    by (simp add: run msg_initializing_def msg_crafting_def msg_downloading_def
        loadingMessages_def)
qed

theorem one_poll_success_witness:
  "generateVideos env_ready_after_one_poll (submission ''PNG'') = Inr op_pending \<and>
   \<not> op_done op_pending \<and>
   getVideosOperation env_ready_after_one_poll 0 = Inr op_ready \<and> op_done op_ready \<and>
   fst (generateCinematicAnimation 1 env_ready_after_one_poll ''PNG'') = Some (Resolved ''blob:MP4'') \<and>
   status_updates (snd (generateCinematicAnimation 1 env_ready_after_one_poll ''PNG'')) =
     [''Initializing video generation engine...'',
      ''Crafting visual physics and hair dynamics...'',
      ''Simulating mountain wind patterns...'',
      ''Downloading final high-fidelity export...'']"
  using one_poll_success [of env_ready_after_one_poll "''PNG''" op_pending op_ready
      "''https://x/video123''" "HttpResponse True (Inr ''MP4'')" "''MP4''" 1]
  by (simp add: env_ready_after_one_poll_def op_pending_def op_ready_def downloadLink_def
      interpolate_def)

text \<open>
  C3. The claim: when the operation reports not done for \<open>N\<close> polls and then done,
  exactly \<open>N\<close> waits of ten seconds elapse and the index of the cyclic message goes up
  by one per poll, modulo 6; an operation that reports done on the very first poll
  costs no wait beyond the two mandatory status updates. The loop waits before every
  poll, so an operation that the very first poll reports done has cost one wait; and
  a run without any wait, whose operation is done when the submission answers, makes
  three status updates, not two.
\<close>

theorem first_poll_done_counterexample:
  "generateVideos env_ready_after_one_poll (submission ''PNG'') = Inr op_pending \<and>
   getVideosOperation env_ready_after_one_poll 0 = Inr op_ready \<and> op_done op_ready \<and>
   fst (generateCinematicAnimation 1 env_ready_after_one_poll ''PNG'') = Some (Resolved ''blob:MP4'') \<and>
   timeouts (snd (generateCinematicAnimation 1 env_ready_after_one_poll ''PNG'')) = [10000] \<and>
   timeouts (snd (generateCinematicAnimation 1 env_ready_after_one_poll ''PNG'')) \<noteq> [] \<and>
   generateVideos env_ready_at_submit (submission ''PNG'') = Inr op_ready \<and>
   timeouts (snd (generateCinematicAnimation 1 env_ready_at_submit ''PNG'')) = [] \<and>
   status_updates (snd (generateCinematicAnimation 1 env_ready_at_submit ''PNG'')) =
     [''Initializing video generation engine...'',
      ''Crafting visual physics and hair dynamics...'',
      ''Downloading final high-fidelity export...'']"
  by (simp add: env_ready_at_submit_def env_ready_after_one_poll_def op_pending_def op_ready_def
      generateCinematicAnimation_def after_loop_def download_def downloadLink_def
      interpolate_def msg_initializing_def msg_crafting_def msg_downloading_def)

text \<open>
  C3, as the code has it. When the handle of the submission is done, there is no wait
  and no poll: the trace is the two fixed status updates around the submission and
  then what follows the loop. When it is not done, the polls \<open>0\<close> to \<open>N - 1\<close> answer not
  done and poll \<open>N\<close> answers done, the trace after the crafting message is \<open>N + 1\<close>
  iterations, each of them a wait of 10000 ms, then the cyclic message with the index
  \<open>k mod 6\<close>, then poll \<open>k\<close>, which sends the handle of the answer before it; so
  exactly \<open>N + 1\<close> waits elapse, one before each of the \<open>N + 1\<close> polls, and poll 6 is
  announced by message 0 again. What follows the loop has no wait and no poll, and in
  a run that resolves it is the downloading message and the fetch. The instance that
  follows the theorem has \<open>N = 6\<close>.
\<close>

theorem waits_and_flavor_messages:
  assumes "generateVideos E (submission img) = Inr op0"
  shows "(op_done op0 \<longrightarrow>
            timeouts (snd (generateCinematicAnimation fuel E img)) = [] \<and>
            polled (snd (generateCinematicAnimation fuel E img)) = [] \<and>
            (\<exists>tail. snd (generateCinematicAnimation fuel E img) =
               [StatusUpdate ''Initializing video generation engine...'',
                GenerateVideos (submission img),
                StatusUpdate ''Crafting visual physics and hair dynamics...''] @ tail \<and>
               (\<forall>u. fst (generateCinematicAnimation fuel E img) = Some (Resolved u) \<longrightarrow>
                  (\<exists>url. tail = [StatusUpdate ''Downloading final high-fidelity export...'',
                                Fetch url])))) \<and>
         (\<not> op_done op0 \<and> (\<forall>k<N. in_flight (getVideosOperation E k)) \<and>
          getVideosOperation E N = Inr operation \<and> op_done operation \<and> N < fuel \<longrightarrow>
            timeouts (snd (generateCinematicAnimation fuel E img)) = replicate (Suc N) 10000 \<and>
            length (polled (snd (generateCinematicAnimation fuel E img))) = Suc N \<and>
            (\<exists>hs tail.
               length hs = Suc N \<and> hs ! 0 = op0 \<and>
               (\<forall>k<N. getVideosOperation E k = Inr (hs ! Suc k)) \<and>
               snd (generateCinematicAnimation fuel E img) =
                 [StatusUpdate ''Initializing video generation engine...'',
                  GenerateVideos (submission img),
                  StatusUpdate ''Crafting visual physics and hair dynamics...''] @
                 concat (map (\<lambda>k. [Timeout 10000,
                                    StatusUpdate (loadingMessages ! (k mod 6)),
                                    GetVideosOperation (hs ! k)]) [0..<Suc N]) @
                 tail \<and>
               timeouts tail = [] \<and> polled tail = [] \<and>
               (\<forall>u. fst (generateCinematicAnimation fuel E img) = Some (Resolved u) \<longrightarrow>
                  (\<exists>url. tail = [StatusUpdate ''Downloading final high-fidelity export...'',
                                Fetch url]))))"
proof (intro conjI impI)
  assume done0: "op_done op0"
  have flight: "\<forall>k<0. in_flight (answer E img k)" by simp
  have first: "answer E img 0 = Inr op0" using assms by simp
  from run_done_trace [OF flight first done0, of fuel] obtain hs tail where
    len: "length hs = 0" and
    shape: "snd (generateCinematicAnimation fuel E img) =
              [StatusUpdate msg_initializing, GenerateVideos (submission img),
               StatusUpdate msg_crafting] @
              concat (map (\<lambda>k. [Timeout 10000,
                                 StatusUpdate (loadingMessages ! (k mod 6)),
                                 GetVideosOperation (hs ! k)]) [0..<0]) @ tail" and
    quiet: "timeouts tail = []" "polled tail = []" and
    last: "\<forall>u. fst (generateCinematicAnimation fuel E img) = Some (Resolved u) \<longrightarrow>
              (\<exists>link. downloadLink op0 = Some link \<and>
                 tail = [StatusUpdate msg_downloading,
                         Fetch (link @ ''&key='' @ interpolate (API_KEY E))])"
    by auto
  have tr: "snd (generateCinematicAnimation fuel E img) =
              [StatusUpdate ''Initializing video generation engine...'',
               GenerateVideos (submission img),
               StatusUpdate ''Crafting visual physics and hair dynamics...''] @ tail"
    using shape by (simp add: msg_initializing_def msg_crafting_def)
  show "timeouts (snd (generateCinematicAnimation fuel E img)) = []"
    by (simp add: tr quiet)
  show "polled (snd (generateCinematicAnimation fuel E img)) = []"
    by (simp add: tr quiet)
  have "\<forall>u. fst (generateCinematicAnimation fuel E img) = Some (Resolved u) \<longrightarrow>
          (\<exists>url. tail = [StatusUpdate ''Downloading final high-fidelity export...'', Fetch url])"
    using last by (auto simp: msg_downloading_def)
  with tr show "\<exists>tail. snd (generateCinematicAnimation fuel E img) =
               [StatusUpdate ''Initializing video generation engine...'',
                GenerateVideos (submission img),
                StatusUpdate ''Crafting visual physics and hair dynamics...''] @ tail \<and>
               (\<forall>u. fst (generateCinematicAnimation fuel E img) = Some (Resolved u) \<longrightarrow>
                  (\<exists>url. tail = [StatusUpdate ''Downloading final high-fidelity export...'',
                                Fetch url]))"
    by blast
next
  assume run: "\<not> op_done op0 \<and> (\<forall>k<N. in_flight (getVideosOperation E k)) \<and>
          getVideosOperation E N = Inr operation \<and> op_done operation \<and> N < fuel"
  have flight: "\<forall>k<Suc N. in_flight (answer E img k)"
  proof (intro allI impI)
    fix k assume "k < Suc N"
    with run assms show "in_flight (answer E img k)"
      by (cases k) (simp_all add: in_flight_def)
  qed
  have final: "answer E img (Suc N) = Inr operation" using run by simp
  have fin: "op_done operation" using run by simp
  have enough: "Suc N \<le> fuel" using run by simp
  from run_done_trace [OF flight final fin enough] obtain hs tail where
    all: "length hs = Suc N \<and>
    (\<forall>k<Suc N. answer E img k = Inr (hs ! k)) \<and>
    snd (generateCinematicAnimation fuel E img) =
              [StatusUpdate msg_initializing, GenerateVideos (submission img),
               StatusUpdate msg_crafting] @
              concat (map (\<lambda>k. [Timeout 10000,
                                 StatusUpdate (loadingMessages ! (k mod 6)),
                                 GetVideosOperation (hs ! k)]) [0..<Suc N]) @ tail \<and>
    timeouts tail = [] \<and> polled tail = [] \<and>
    (\<forall>u. fst (generateCinematicAnimation fuel E img) = Some (Resolved u) \<longrightarrow>
              (\<exists>link. downloadLink operation = Some link \<and>
                 tail = [StatusUpdate msg_downloading,
                         Fetch (link @ ''&key='' @ interpolate (API_KEY E))]))"
    by (elim exE) (rule that)
  from all have
    len: "length hs = Suc N" and
    handles: "\<forall>k<Suc N. answer E img k = Inr (hs ! k)" and
    shape: "snd (generateCinematicAnimation fuel E img) =
              [StatusUpdate msg_initializing, GenerateVideos (submission img),
               StatusUpdate msg_crafting] @
              concat (map (\<lambda>k. [Timeout 10000,
                                 StatusUpdate (loadingMessages ! (k mod 6)),
                                 GetVideosOperation (hs ! k)]) [0..<Suc N]) @ tail" and
    quiet: "timeouts tail = []" "polled tail = []" and
    last: "\<forall>u. fst (generateCinematicAnimation fuel E img) = Some (Resolved u) \<longrightarrow>
              (\<exists>link. downloadLink operation = Some link \<and>
                 tail = [StatusUpdate msg_downloading,
                         Fetch (link @ ''&key='' @ interpolate (API_KEY E))])"
    by simp_all
  have h0: "hs ! 0 = op0"
    using handles assms by auto
  have hk: "\<forall>k<N. getVideosOperation E k = Inr (hs ! Suc k)"
  proof (intro allI impI)
    fix k assume "k < N"
    then have "Suc k < Suc N" by simp
    with handles have "answer E img (Suc k) = Inr (hs ! Suc k)" by blast
    then show "getVideosOperation E k = Inr (hs ! Suc k)" by simp
  qed
  have tr: "snd (generateCinematicAnimation fuel E img) =
              [StatusUpdate ''Initializing video generation engine...'',
               GenerateVideos (submission img),
               StatusUpdate ''Crafting visual physics and hair dynamics...''] @
              concat (map (\<lambda>k. [Timeout 10000,
                                 StatusUpdate (loadingMessages ! (k mod 6)),
                                 GetVideosOperation (hs ! k)]) [0..<Suc N]) @ tail"
    using shape by (simp add: msg_initializing_def msg_crafting_def)
  have dl: "\<forall>u. fst (generateCinematicAnimation fuel E img) = Some (Resolved u) \<longrightarrow>
          (\<exists>url. tail = [StatusUpdate ''Downloading final high-fidelity export...'', Fetch url])"
    using last by (auto simp: msg_downloading_def)
  from run_settled_done [OF flight final fin enough]
  show "timeouts (snd (generateCinematicAnimation fuel E img)) = replicate (Suc N) 10000"
    and "length (polled (snd (generateCinematicAnimation fuel E img))) = Suc N"
    by blast+
  from len h0 hk tr quiet dl
  show "\<exists>hs tail.
               length hs = Suc N \<and> hs ! 0 = op0 \<and>
               (\<forall>k<N. getVideosOperation E k = Inr (hs ! Suc k)) \<and>
               snd (generateCinematicAnimation fuel E img) =
                 [StatusUpdate ''Initializing video generation engine...'',
                  GenerateVideos (submission img),
                  StatusUpdate ''Crafting visual physics and hair dynamics...''] @
                 concat (map (\<lambda>k. [Timeout 10000,
                                    StatusUpdate (loadingMessages ! (k mod 6)),
                                    GetVideosOperation (hs ! k)]) [0..<Suc N]) @
                 tail \<and>
               timeouts tail = [] \<and> polled tail = [] \<and>
               (\<forall>u. fst (generateCinematicAnimation fuel E img) = Some (Resolved u) \<longrightarrow>
                  (\<exists>url. tail = [StatusUpdate ''Downloading final high-fidelity export...'',
                                Fetch url]))"
    by (intro exI [of _ hs] exI [of _ tail]) blast
qed

theorem waits_and_flavor_messages_witness:
  "generateVideos env_ready_after_seven_polls (submission ''PNG'') = Inr op_pending \<and>
   \<not> op_done op_pending \<and>
   in_flight (getVideosOperation env_ready_after_seven_polls 0) \<and>
   in_flight (getVideosOperation env_ready_after_seven_polls 5) \<and>
   getVideosOperation env_ready_after_seven_polls 6 = Inr op_ready \<and> op_done op_ready \<and>
   generateCinematicAnimation 7 env_ready_after_seven_polls ''PNG'' =
     (Some (Resolved ''blob:MP4''),
      [StatusUpdate ''Initializing video generation engine...'',
       GenerateVideos (submission ''PNG''),
       StatusUpdate ''Crafting visual physics and hair dynamics...'',
       Timeout 10000, StatusUpdate ''Simulating mountain wind patterns...'',
       GetVideosOperation op_pending,
       Timeout 10000, StatusUpdate ''Rendering atmospheric particle depth...'',
       GetVideosOperation op_pending,
       Timeout 10000, StatusUpdate ''Polishing hair strand animations...'',
       GetVideosOperation op_pending,
       Timeout 10000, StatusUpdate ''Applying cinematic lighting passes...'',
       GetVideosOperation op_pending,
       Timeout 10000, StatusUpdate ''Finalizing realistic motion vectors...'',
       GetVideosOperation op_pending,
       Timeout 10000, StatusUpdate ''Almost ready for your vision...'',
       GetVideosOperation op_pending,
       Timeout 10000, StatusUpdate ''Simulating mountain wind patterns...'',
       GetVideosOperation op_pending,
       StatusUpdate ''Downloading final high-fidelity export...'',
       Fetch ''https://x/video123&key=KEY''])"
proof -
  have E: "generateVideos env_ready_after_seven_polls (submission ''PNG'') = Inr op_pending"
    by (simp add: env_ready_after_seven_polls_def env_ready_after_one_poll_def)
  have hyp: "\<not> op_done op_pending \<and>
       (\<forall>k<6. in_flight (getVideosOperation env_ready_after_seven_polls k)) \<and>
       getVideosOperation env_ready_after_seven_polls 6 = Inr op_ready \<and> op_done op_ready \<and>
       (6::nat) < 7"
    by (simp add: env_ready_after_seven_polls_def env_ready_after_one_poll_def
        op_pending_def op_ready_def in_flight_def)
  have first: "in_flight (getVideosOperation env_ready_after_seven_polls 0)"
    and sixth: "in_flight (getVideosOperation env_ready_after_seven_polls 5)"
    using hyp by simp_all
  have seven: "(7::nat) = Suc (Suc (Suc (Suc (Suc (Suc (Suc 0))))))"
    by simp
  have run: "generateCinematicAnimation 7 env_ready_after_seven_polls ''PNG'' =
     (Some (Resolved ''blob:MP4''),
      [StatusUpdate ''Initializing video generation engine...'',
       GenerateVideos (submission ''PNG''),
       StatusUpdate ''Crafting visual physics and hair dynamics...'',
       Timeout 10000, StatusUpdate ''Simulating mountain wind patterns...'',
       GetVideosOperation op_pending,
       Timeout 10000, StatusUpdate ''Rendering atmospheric particle depth...'',
       GetVideosOperation op_pending,
       Timeout 10000, StatusUpdate ''Polishing hair strand animations...'',
       GetVideosOperation op_pending,
       Timeout 10000, StatusUpdate ''Applying cinematic lighting passes...'',
       GetVideosOperation op_pending,
       Timeout 10000, StatusUpdate ''Finalizing realistic motion vectors...'',
       GetVideosOperation op_pending,
       Timeout 10000, StatusUpdate ''Almost ready for your vision...'',
       GetVideosOperation op_pending,
       Timeout 10000, StatusUpdate ''Simulating mountain wind patterns...'',
       GetVideosOperation op_pending,
       StatusUpdate ''Downloading final high-fidelity export...'',
       Fetch ''https://x/video123&key=KEY''])"
    unfolding seven
    by (simp add: env_ready_after_seven_polls_def env_ready_after_one_poll_def
        op_pending_def op_ready_def generateCinematicAnimation_def after_loop_def
        download_def downloadLink_def interpolate_def loadingMessages_def
        msg_initializing_def msg_crafting_def msg_downloading_def)
  from waits_and_flavor_messages [OF E, of 7 6 op_ready] E hyp first sixth run
  show ?thesis
    by blast
qed

text \<open>
  C4. When the operation is done (at the submission, \<open>N = 0\<close>, or at a poll) and its
  result list is empty or the first generated item has no video URI, the promise is
  rejected with the method's own error \<open>Failed to retrieve generated video URL.\<close>,
  whatever the collaborators answer otherwise, and the trace has no fetch.
  \<open>download_missing_link\<close> has the same for every link that \<^verbatim>\<open>!downloadLink\<close>
  accepts.
\<close>

theorem missing_artifact:
  assumes "\<forall>k<N. in_flight (answer E img k)"
    and "answer E img N = Inr operation" and "op_done operation"
    and "response operation = Some r"
    and "generatedVideos r = Some [] \<or>
         (\<exists>g gs. generatedVideos r = Some (g # gs) \<and> Option.bind (video g) uri = None)"
    and "N \<le> fuel"
  shows "fst (generateCinematicAnimation fuel E img) =
           Some (Rejected (JsError (Some ''Failed to retrieve generated video URL.''))) \<and>
         fetches (snd (generateCinematicAnimation fuel E img)) = []"
proof -
  have link: "downloadLink operation = None"
    using assms(4,5) by (auto simp: downloadLink_def)
  from run_finished [OF assms(1-3,6)] obtain hs where
    run: "generateCinematicAnimation fuel E img =
            after_loop E (Finished operation,
              [StatusUpdate msg_initializing, GenerateVideos (submission img),
               StatusUpdate msg_crafting] @ rounds 0 hs)"
    by blast
  have "generateCinematicAnimation fuel E img =
          catch_handler (JsError (Some ''Failed to retrieve generated video URL.''))
            ([StatusUpdate msg_initializing, GenerateVideos (submission img),
              StatusUpdate msg_crafting] @ rounds 0 hs)"
    using link by (simp add: run after_loop_def download_missing_link)
  then show ?thesis
    using own_errors_not_rejected(1)
    by (simp add: fst_catch_handler snd_catch_handler fetches_append fetches_rounds)
qed

theorem missing_artifact_witness:
  "answer env_no_video ''PNG'' 0 = Inr op_empty \<and> op_done op_empty \<and>
   response op_empty = Some (VideosResponse (Some [])) \<and>
   fst (generateCinematicAnimation 0 env_no_video ''PNG'') =
     Some (Rejected (JsError (Some ''Failed to retrieve generated video URL.''))) \<and>
   fetches (snd (generateCinematicAnimation 0 env_no_video ''PNG'')) = []"
  using missing_artifact [of 0 env_no_video "''PNG''" op_empty "VideosResponse (Some [])" 0]
  by (simp add: env_no_video_def env_ready_after_one_poll_def op_empty_def)

text \<open>
  C5. When the operation is done with a link and the download answers with
  \<^verbatim>\<open>response.ok\<close> false, the promise is rejected with the error
  \<open>Failed to fetch the video data.\<close>, so no object URL is returned, and the trace has
  exactly one fetch: the download is not tried again.
\<close>

theorem download_failed:
  assumes "\<forall>k<N. in_flight (answer E img k)"
    and "answer E img N = Inr operation" and "op_done operation"
    and "downloadLink operation = Some link" and "link \<noteq> []"
    and "fetch E (link @ ''&key='' @ interpolate (API_KEY E)) = Inr resp" and "\<not> ok resp"
    and "N \<le> fuel"
  shows "fst (generateCinematicAnimation fuel E img) =
           Some (Rejected (JsError (Some ''Failed to fetch the video data.''))) \<and>
         fetches (snd (generateCinematicAnimation fuel E img)) =
           [link @ ''&key='' @ interpolate (API_KEY E)]"
proof -
  from run_finished [OF assms(1-3,8)] obtain hs where
    run: "generateCinematicAnimation fuel E img =
            after_loop E (Finished operation,
              [StatusUpdate msg_initializing, GenerateVideos (submission img),
               StatusUpdate msg_crafting] @ rounds 0 hs)"
    by blast
  let ?tr = "[StatusUpdate msg_initializing, GenerateVideos (submission img),
              StatusUpdate msg_crafting] @ rounds 0 hs"
  have "generateCinematicAnimation fuel E img =
          catch_handler (JsError (Some ''Failed to fetch the video data.''))
            (?tr @ [StatusUpdate msg_downloading,
                    Fetch (link @ ''&key='' @ interpolate (API_KEY E))])"
    using download_not_ok [OF assms(4-7), of ?tr] by (simp add: run after_loop_def)
  then show ?thesis
    using own_errors_not_rejected(2)
    by (simp add: fst_catch_handler snd_catch_handler fetches_append fetches_rounds)
qed

theorem download_failed_witness:
  "in_flight (answer env_forbidden ''PNG'' 0) \<and>
   answer env_forbidden ''PNG'' 1 = Inr op_ready \<and> op_done op_ready \<and>
   downloadLink op_ready = Some ''https://x/video123'' \<and>
   fetch env_forbidden ''https://x/video123&key=KEY'' = Inr (HttpResponse False (Inr ''Forbidden'')) \<and>
   fst (generateCinematicAnimation 1 env_forbidden ''PNG'') =
     Some (Rejected (JsError (Some ''Failed to fetch the video data.''))) \<and>
   fetches (snd (generateCinematicAnimation 1 env_forbidden ''PNG'')) =
     [''https://x/video123&key=KEY'']"
  using download_failed [of 1 env_forbidden "''PNG''" op_ready "''https://x/video123''"
      "HttpResponse False (Inr ''Forbidden'')" 1]
  by (simp add: env_forbidden_def env_ready_after_one_poll_def op_ready_def op_pending_def
      in_flight_def downloadLink_def interpolate_def)

text \<open>
  C6. An error raised by the submission or by a poll that the handler does not take for
  a credential rejection (no message, or a message without the phrase) is thrown again
  as it is: the promise is rejected with the very same value. By \<open>short_phrase_absent\<close>
  this covers every message without \<open>entity was not found\<close>.
\<close>

theorem upstream_error_verbatim:
  assumes "\<forall>k<N. in_flight (answer E img k)"
    and "answer E img N = Inl error"
    and "\<not> credential_rejected error"
    and "N \<le> fuel"
  shows "fst (generateCinematicAnimation fuel E img) = Some (Rejected error)"
proof -
  from run_rejected [OF assms(1,2,4)] obtain tr where
    "generateCinematicAnimation fuel E img = catch_handler error tr" ..
  with assms(3) show ?thesis by (simp add: fst_catch_handler)
qed

theorem upstream_error_verbatim_witness:
  "answer env_quota ''PNG'' 0 = Inl (JsError (Some ''Quota exceeded'')) \<and>
   \<not> credential_rejected (JsError (Some ''Quota exceeded'')) \<and>
   fst (generateCinematicAnimation 0 env_quota ''PNG'') =
     Some (Rejected (JsError (Some ''Quota exceeded'')))"
  using upstream_error_verbatim [of 0 env_quota "''PNG''" "JsError (Some ''Quota exceeded'')" 0]
  by (simp add: env_quota_def env_ready_after_one_poll_def credential_rejected_def)

text \<open>
  C7. On every run, with any fuel and any collaborators, the calls to the outside are,
  in this order: the submission; the polls, where poll \<open>k\<close> sends the handle that answer
  number \<open>k\<close> delivered (the submission's for the first poll, the previous poll's
  otherwise), so that it follows that answer; then at most one fetch, made only when
  the answer after the last poll is a finished handle. A run that resolves has made
  exactly one fetch.
\<close>

theorem call_order:
  "\<exists>hs. network (snd (generateCinematicAnimation fuel E img)) =
          GenerateVideos (submission img) # map GetVideosOperation hs @
          map Fetch (fetches (snd (generateCinematicAnimation fuel E img))) \<and>
        (\<forall>k<length hs. answer E img k = Inr (hs ! k)) \<and>
        length (fetches (snd (generateCinematicAnimation fuel E img))) \<le> 1 \<and>
        (fetches (snd (generateCinematicAnimation fuel E img)) \<noteq> [] \<longrightarrow>
           (\<exists>operation. answer E img (length hs) = Inr operation \<and> op_done operation)) \<and>
        (\<forall>u. fst (generateCinematicAnimation fuel E img) = Some (Resolved u) \<longrightarrow>
           length (fetches (snd (generateCinematicAnimation fuel E img))) = 1)"
proof (cases "generateVideos E (submission img)")
  case (Inl error)
  then have "generateCinematicAnimation fuel E img =
               catch_handler error [StatusUpdate msg_initializing, GenerateVideos (submission img)]"
    by (simp add: generateCinematicAnimation_def)
  then show ?thesis
    by (intro exI [of _ "[]"]) (simp add: fst_catch_handler snd_catch_handler)
next
  case (Inr op0)
  let ?pre = "[StatusUpdate msg_initializing, GenerateVideos (submission img),
               StatusUpdate msg_crafting]"
  from run_after_submit [OF Inr, of fuel] obtain hs where
    seen: "\<forall>k<length hs. answer E img k = Inr (hs ! k) \<and> \<not> op_done (hs ! k)" and
    run: "generateCinematicAnimation fuel E img =
            after_loop E (exit_on (answer E img (length hs)), ?pre @ rounds 0 hs)"
    by blast
  from after_loop_tail [of E "exit_on (answer E img (length hs))" "?pre @ rounds 0 hs"]
  obtain tail where
    tr: "snd (after_loop E (exit_on (answer E img (length hs)), ?pre @ rounds 0 hs)) =
           (?pre @ rounds 0 hs) @ tail" and
    net: "network tail = map Fetch (fetches tail)" and
    one: "length (fetches tail) \<le> 1" and
    fin: "fetches tail \<noteq> [] \<longrightarrow> (\<exists>operation. exit_on (answer E img (length hs)) = Finished operation)" and
    ok: "\<forall>u. fst (after_loop E (exit_on (answer E img (length hs)), ?pre @ rounds 0 hs)) =
               Some (Resolved u) \<longrightarrow>
             fetches tail \<noteq> [] \<and> status_updates tail = [msg_downloading]"
    by blast
  have full: "snd (generateCinematicAnimation fuel E img) = ?pre @ rounds 0 hs @ tail"
    using tr by (simp add: run)
  have f: "fetches (snd (generateCinematicAnimation fuel E img)) = fetches tail"
    by (simp add: full fetches_append fetches_rounds)
  have n: "network (snd (generateCinematicAnimation fuel E img)) =
             GenerateVideos (submission img) # map GetVideosOperation hs @ map Fetch (fetches tail)"
    by (simp add: full network_append network_rounds net)
  have a: "\<forall>k<length hs. answer E img k = Inr (hs ! k)"
    using seen by simp
  have d: "fetches tail \<noteq> [] \<longrightarrow>
             (\<exists>operation. answer E img (length hs) = Inr operation \<and> op_done operation)"
    using fin exit_on_Finished by blast
  have r: "\<forall>u. fst (generateCinematicAnimation fuel E img) = Some (Resolved u) \<longrightarrow>
             length (fetches tail) = 1"
  proof (intro allI impI)
    fix u assume "fst (generateCinematicAnimation fuel E img) = Some (Resolved u)"
    with ok have "fetches tail \<noteq> []" by (simp add: run)
    with one show "length (fetches tail) = 1" by (cases "fetches tail") simp_all
  qed
  from n a one d r show ?thesis
    unfolding f by (intro exI [of _ hs]) blast
qed

theorem call_order_witness:
  "answer env_ready_after_one_poll ''PNG'' 0 = Inr op_pending \<and>
   answer env_ready_after_one_poll ''PNG'' 1 = Inr op_ready \<and> op_done op_ready \<and>
   fst (generateCinematicAnimation 1 env_ready_after_one_poll ''PNG'') = Some (Resolved ''blob:MP4'') \<and>
   network (snd (generateCinematicAnimation 1 env_ready_after_one_poll ''PNG'')) =
     [GenerateVideos (submission ''PNG''), GetVideosOperation op_pending,
      Fetch ''https://x/video123&key=KEY''] \<and>
   fetches (snd (generateCinematicAnimation 1 env_ready_after_one_poll ''PNG'')) =
     [''https://x/video123&key=KEY'']"
  using call_order [of 1 env_ready_after_one_poll "''PNG''"]
  by (simp add: env_ready_after_one_poll_def op_pending_def op_ready_def
      generateCinematicAnimation_def after_loop_def download_def downloadLink_def
      interpolate_def)

text \<open>
  C8. When the submission has answered a handle, the trace goes on with the status
  update \<open>Crafting visual physics and hair dynamics...\<close>, before anything else (so
  before every wait and every poll), with any fuel. The string is none of the six
  cyclic ones. A run that resolves has made at least three status updates, also when
  the operation is done as soon as the submission answers.
\<close>

theorem crafting_message:
  assumes "generateVideos E (submission img) = Inr op0"
  shows "(\<exists>rest. snd (generateCinematicAnimation fuel E img) =
            StatusUpdate ''Initializing video generation engine...'' #
            GenerateVideos (submission img) #
            StatusUpdate ''Crafting visual physics and hair dynamics...'' # rest) \<and>
         ''Crafting visual physics and hair dynamics...'' \<notin> set loadingMessages \<and>
         (\<forall>u. fst (generateCinematicAnimation fuel E img) = Some (Resolved u) \<longrightarrow>
            3 \<le> length (status_updates (snd (generateCinematicAnimation fuel E img))))"
proof -
  let ?pre = "[StatusUpdate msg_initializing, GenerateVideos (submission img),
               StatusUpdate msg_crafting]"
  from run_after_submit [OF assms, of fuel] obtain hs where
    run: "generateCinematicAnimation fuel E img =
            after_loop E (exit_on (answer E img (length hs)), ?pre @ rounds 0 hs)"
    by blast
  from after_loop_tail [of E "exit_on (answer E img (length hs))" "?pre @ rounds 0 hs"]
  obtain tail where
    tr: "snd (after_loop E (exit_on (answer E img (length hs)), ?pre @ rounds 0 hs)) =
           (?pre @ rounds 0 hs) @ tail" and
    ok: "\<forall>u. fst (after_loop E (exit_on (answer E img (length hs)), ?pre @ rounds 0 hs)) =
               Some (Resolved u) \<longrightarrow>
             fetches tail \<noteq> [] \<and> status_updates tail = [msg_downloading]"
    by blast
  have full: "snd (generateCinematicAnimation fuel E img) = ?pre @ rounds 0 hs @ tail"
    using tr by (simp add: run)
  have first: "\<exists>rest. snd (generateCinematicAnimation fuel E img) =
            StatusUpdate ''Initializing video generation engine...'' #
            GenerateVideos (submission img) #
            StatusUpdate ''Crafting visual physics and hair dynamics...'' # rest"
    by (simp add: full msg_initializing_def msg_crafting_def)
  have other: "''Crafting visual physics and hair dynamics...'' \<notin> set loadingMessages"
    by (simp add: loadingMessages_def)
  have three: "3 \<le> length (status_updates (snd (generateCinematicAnimation fuel E img)))"
    if "fst (generateCinematicAnimation fuel E img) = Some (Resolved u)" for u
  proof -
    from that ok have "status_updates tail = [msg_downloading]"
      by (simp add: run)
    then show ?thesis
      by (simp add: full status_updates_append)
  qed
  from first other three show ?thesis by blast
qed

theorem crafting_message_witness:
  "generateVideos env_ready_at_submit (submission ''PNG'') = Inr op_ready \<and> op_done op_ready \<and>
   fst (generateCinematicAnimation 0 env_ready_at_submit ''PNG'') = Some (Resolved ''blob:MP4'') \<and>
   status_updates (snd (generateCinematicAnimation 0 env_ready_at_submit ''PNG'')) =
     [''Initializing video generation engine...'',
      ''Crafting visual physics and hair dynamics...'',
      ''Downloading final high-fidelity export...'']"
  using crafting_message [of env_ready_at_submit "''PNG''" op_ready 0]
  by (simp add: env_ready_at_submit_def env_ready_after_one_poll_def op_ready_def
      generateCinematicAnimation_def after_loop_def download_def downloadLink_def
      interpolate_def msg_initializing_def msg_crafting_def msg_downloading_def)

text \<open>
  C9. On every run, whatever the payload and the collaborators, the second event is
  the submission, and its request has the media type \<open>image/png\<close>, the fixed prompt, the
  fixed model and the configuration of one video, 1080p, 16:9. The payload enters the
  request as \<open>imageBytes\<close> and nowhere else.
\<close>

theorem submission_request_constant:
  "\<exists>rest. snd (generateCinematicAnimation fuel E imageBase64) =
     StatusUpdate ''Initializing video generation engine...'' #
     GenerateVideos
       \<lparr> model = ''veo-3.1-fast-generate-preview'',
         prompt = prompt_text,
         image = \<lparr> imageBytes = imageBase64, mimeType = ''image/png'' \<rparr>,
         config = \<lparr> numberOfVideos = 1, resolution = ''1080p'', aspectRatio = ''16:9'' \<rparr> \<rparr> #
     rest"
  using submission_events [of fuel E imageBase64]
  by (simp add: submission_def msg_initializing_def)

theorem submission_request_constant_witness:
  "take 2 (snd (generateCinematicAnimation 0 env_quota ''iVBORw0KGgo='')) =
     [StatusUpdate ''Initializing video generation engine...'',
      GenerateVideos
        \<lparr> model = ''veo-3.1-fast-generate-preview'',
          prompt = prompt_text,
          image = \<lparr> imageBytes = ''iVBORw0KGgo='', mimeType = ''image/png'' \<rparr>,
          config = \<lparr> numberOfVideos = 1, resolution = ''1080p'', aspectRatio = ''16:9'' \<rparr> \<rparr>]"
  using submission_request_constant [of 0 env_quota "''iVBORw0KGgo=''"]
  by auto

text \<open>
  C10. A call of \<open>getInstance\<close> right after another returns the same reference and
  leaves the class as it is; so does a call in any later state whose private field is
  what the first call left. Any two calls return the same object.
\<close>

theorem getInstance_singleton:
  "fst (getInstance (snd (getInstance s))) = fst (getInstance s) \<and>
   snd (getInstance (snd (getInstance s))) = snd (getInstance s) \<and>
   (instance_ref s' = instance_ref (snd (getInstance s)) \<longrightarrow>
      fst (getInstance s') = fst (getInstance s))"
  by (cases "instance_ref s") (auto simp: getInstance_def)

theorem getInstance_singleton_witness:
  "getInstance \<lparr> instance_ref = None, next_ref = 5 \<rparr> =
     (5, \<lparr> instance_ref = Some 5, next_ref = 6 \<rparr>) \<and>
   fst (getInstance \<lparr> instance_ref = Some 5, next_ref = 9 \<rparr>) = 5"
  using getInstance_singleton [of "\<lparr> instance_ref = None, next_ref = 5 \<rparr>"
      "\<lparr> instance_ref = Some 5, next_ref = 9 \<rparr>"]
  by (simp add: getInstance_def)

end
